theory Spec2Isabelle
  imports Main "HOL-Library.Word" "HOL-Library.Signed_Division"
begin

section \<open>The fixed-capacity vector \<open>simple_stack_vector\<close>\<close>

text \<open>
  \<open>simple_stack_vector<Contained, Capacity>\<close> has two members: the array of
  \<open>Capacity\<close> slots (\<open>data_m\<close> here, since a name cannot end in an underscore) and
  the counter \<open>size_m\<close> of type \<open>std::size_t\<close>. The array is a list, the counter a
  machine word of some width \<open>'w\<close>. The template parameter \<open>Capacity\<close> is a parameter of
  every function that reads it.

  The source throws \<open>std::length_error\<close> (the specification's CapacityExceeded) and
  \<open>std::out_of_range\<close> (its OutOfRange), each with a message. \<open>undefined_behaviour\<close> is
  not an exception: it marks an execution that leaves the array (a subscript or an
  iterator outside \<open>data_m\<close>), to which C++ gives no meaning.
\<close>

datatype error =
  length_error string
  | out_of_range string
  | undefined_behaviour

record (overloaded) ('a, 'w) simple_stack_vector =
  data_m :: "'a list"
  size_m :: "'w word"

text \<open>
  A reference to a slot of \<open>data_m\<close> is the number of the slot; reading the reference
  is \<open>deref\<close>. An iterator into \<open>data_m\<close> is a position, too.
\<close>

type_synonym reference = nat
type_synonym iterator = nat

definition deref :: "('a, 'w::len) simple_stack_vector \<Rightarrow> reference \<Rightarrow> 'a" where
  "deref v r = data_m v ! r"

subsection \<open>The operations of \<open>std::array\<close> the container uses\<close>

definition array_subscript :: "'a list \<Rightarrow> 'w::len word \<Rightarrow> error + reference" where
  "array_subscript d idx =
     (if unat idx < length d then Inr (unat idx) else Inl undefined_behaviour)"

definition array_front :: "'a list \<Rightarrow> error + reference" where
  "array_front d = (if d = [] then Inl undefined_behaviour else Inr 0)"

definition array_back :: "'a list \<Rightarrow> error + reference" where
  "array_back d = (if d = [] then Inl undefined_behaviour else Inr (length d - 1))"

subsection \<open>Construction and the accessors\<close>

text \<open>
  The defaulted constructor: the initialiser \<open>{}\<close> of the array value-initialises
  every slot (\<open>dflt\<close> stands for \<open>Contained{}\<close>) and that of the counter makes it zero.
\<close>

definition simple_stack_vector_default ::
  "'a \<Rightarrow> 'w::len word \<Rightarrow> ('a, 'w) simple_stack_vector" where
  "simple_stack_vector_default dflt Capacity =
     \<lparr>data_m = replicate (unat Capacity) dflt, size_m = 0\<rparr>"

definition capacity :: "'w::len word \<Rightarrow> 'w word" where
  "capacity Capacity = Capacity"

definition max_size :: "'w::len word \<Rightarrow> 'w word" where
  "max_size Capacity = Capacity"

definition size_ssv :: "('a, 'w::len) simple_stack_vector \<Rightarrow> 'w word" where
  "size_ssv v = size_m v"

definition empty_ssv :: "('a, 'w::len) simple_stack_vector \<Rightarrow> bool" where
  "empty_ssv v = (size_m v = 0)"

definition begin_ssv :: "('a, 'w::len) simple_stack_vector \<Rightarrow> iterator" where
  "begin_ssv v = 0"

definition end_ssv :: "('a, 'w::len) simple_stack_vector \<Rightarrow> iterator" where
  "end_ssv v = 0 + unat (size_m v)"

definition front_ssv :: "('a, 'w::len) simple_stack_vector \<Rightarrow> error + reference" where
  "front_ssv v = array_front (data_m v)"

definition back_ssv :: "('a, 'w::len) simple_stack_vector \<Rightarrow> error + reference" where
  "back_ssv v = array_back (data_m v)"

definition subscript ::
  "('a, 'w::len) simple_stack_vector \<Rightarrow> 'w word \<Rightarrow> error + reference" where
  "subscript v idx = array_subscript (data_m v) idx"

text \<open>
  \<open>at\<close> is the checked access. The non-const overload may be handed a container that it
  could change, so it returns the container with its result.
\<close>

definition at ::
  "'w::len word \<Rightarrow> ('a, 'w) simple_stack_vector
     \<Rightarrow> (error + reference) \<times> ('a, 'w) simple_stack_vector" where
  "at idx v =
     (if idx \<ge> size_m v then (Inl (out_of_range ''index past end of stack_vector''), v)
      else (array_subscript (data_m v) idx, v))"

definition at_const :: "'w::len word \<Rightarrow> ('a, 'w) simple_stack_vector \<Rightarrow> error + 'a" where
  "at_const idx v =
     (if idx \<ge> size_m v then Inl (out_of_range ''index past end of stack_vector'')
      else (case array_subscript (data_m v) idx of
              Inl e \<Rightarrow> Inl e
            | Inr r \<Rightarrow> Inr (data_m v ! r)))"

subsection \<open>The mutating operations\<close>

text \<open>
  A mutating member function returns what it returns or throws, paired with the
  container as the call leaves it.
\<close>

definition push_back ::
  "'w::len word \<Rightarrow> 'a \<Rightarrow> ('a, 'w) simple_stack_vector
     \<Rightarrow> (error + reference) \<times> ('a, 'w) simple_stack_vector" where
  "push_back Capacity val v =
     (if size_m v = Capacity
      then (Inl (length_error ''push_back would exceed static capacity''), v)
      else (case array_subscript (data_m v) (size_m v) of
              Inl e \<Rightarrow> (Inl e, v)
            | Inr r \<Rightarrow>
                (let v1 = v\<lparr>data_m := (data_m v)[r := val]\<rparr>
                 in (array_subscript (data_m v1) (size_m v1), v1\<lparr>size_m := size_m v1 + 1\<rparr>))))"

text \<open>
  \<open>emplace_back\<close> builds \<open>value_type{param...}\<close> and assigns it; \<open>ctor\<close> is that
  constructor.
\<close>

definition emplace_back ::
  "'w::len word \<Rightarrow> ('p \<Rightarrow> 'a) \<Rightarrow> 'p \<Rightarrow> ('a, 'w) simple_stack_vector
     \<Rightarrow> (error + reference) \<times> ('a, 'w) simple_stack_vector" where
  "emplace_back Capacity ctor param v =
     (if size_m v = Capacity
      then (Inl (length_error ''emplace_back would exceed static capacity''), v)
      else (case array_subscript (data_m v) (size_m v) of
              Inl e \<Rightarrow> (Inl e, v)
            | Inr r \<Rightarrow>
                (let v1 = v\<lparr>data_m := (data_m v)[r := ctor param]\<rparr>
                 in (array_subscript (data_m v1) (size_m v1), v1\<lparr>size_m := size_m v1 + 1\<rparr>))))"

definition clear :: "('a, 'w::len) simple_stack_vector \<Rightarrow> ('a, 'w) simple_stack_vector" where
  "clear v = v\<lparr>size_m := 0\<rparr>"

definition reserve ::
  "'w::len word \<Rightarrow> 'w word \<Rightarrow> ('a, 'w) simple_stack_vector
     \<Rightarrow> (error + unit) \<times> ('a, 'w) simple_stack_vector" where
  "reserve Capacity new_capacity v =
     (if new_capacity > Capacity
      then (Inl (length_error ''new capacity would exceed max_size for stack_vector''), v)
      else (Inr (), v))"

definition pop_back :: "('a, 'w::len) simple_stack_vector \<Rightarrow> ('a, 'w) simple_stack_vector" where
  "pop_back v = v\<lparr>size_m := size_m v - 1\<rparr>"

definition shrink_to_fit ::
  "('a, 'w::len) simple_stack_vector \<Rightarrow> ('a, 'w) simple_stack_vector" where
  "shrink_to_fit v = v"

text \<open>
  The loop of \<open>resize\<close>: \<open>while (old_end != new_end) { *old_end = x; ++old_end; }\<close>.
  Writing through an iterator that has left the array is undefined.
\<close>

function resize_loop :: "'a \<Rightarrow> iterator \<Rightarrow> iterator \<Rightarrow> 'a list \<Rightarrow> error + 'a list" where
  "resize_loop x new_end old_end d =
     (if old_end \<noteq> new_end
      then (if old_end < length d
            then resize_loop x new_end (Suc old_end) (d[old_end := x])
            else Inl undefined_behaviour)
      else Inr d)"
  by pat_completeness auto
termination
  by (relation "measure (\<lambda>(x, new_end, old_end, d). length d - old_end)") auto

text \<open>
  \<open>resize\<close> assigns \<open>data_type{}\<close> to each new slot: a value-initialised
  \<open>std::array<value_type, Capacity>\<close>, not a \<open>value_type{}\<close>. The assignment needs a
  conversion from the array type to the element type; \<open>of_data_type\<close> is that
  conversion. For an element type that has none (\<open>int\<close>, say) the member function does
  not compile.
\<close>

definition resize ::
  "('a list \<Rightarrow> 'a) \<Rightarrow> 'a \<Rightarrow> 'w::len word \<Rightarrow> 'w word \<Rightarrow> ('a, 'w) simple_stack_vector
     \<Rightarrow> (error + unit) \<times> ('a, 'w) simple_stack_vector" where
  "resize of_data_type dflt Capacity new_size v =
     (if new_size \<le> size_m v then (Inr (), v\<lparr>size_m := new_size\<rparr>)
      else if new_size > Capacity
      then (Inl (length_error ''resize would exceed static capacity''), v)
      else (let old_end = end_ssv v;
                v1 = v\<lparr>size_m := new_size\<rparr>;
                new_end = end_ssv v1
            in case resize_loop (of_data_type (replicate (unat Capacity) dflt))
                      new_end old_end (data_m v1) of
                 Inl e \<Rightarrow> (Inl e, v1)
               | Inr d \<Rightarrow> (Inr (), v1\<lparr>data_m := d\<rparr>)))"

subsection \<open>Iteration, the constructors that push, and equality\<close>

text \<open>
  A range-based \<open>for\<close> over a container runs from \<open>begin()\<close> to \<open>end()\<close>:
  \<open>for (it = begin(); it != end(); ++it) body(*it)\<close>. The body may throw; reading
  through an iterator that has left the array is undefined.
\<close>

function range_for ::
  "'a list \<Rightarrow> iterator \<Rightarrow> iterator \<Rightarrow> ('a \<Rightarrow> 's \<Rightarrow> error + 's) \<Rightarrow> 's \<Rightarrow> error + 's" where
  "range_for d it end_it body s =
     (if it \<noteq> end_it
      then (if it < length d
            then (case body (d ! it) s of
                    Inl e \<Rightarrow> Inl e
                  | Inr s1 \<Rightarrow> range_for d (Suc it) end_it body s1)
            else Inl undefined_behaviour)
      else Inr s)"
  by pat_completeness auto
termination
  by (relation "measure (\<lambda>(d, it, end_it, body, s). length d - it)") auto

text \<open>The values a forward iteration visits, in the order it visits them.\<close>

definition iterate :: "('a, 'w::len) simple_stack_vector \<Rightarrow> error + 'a list" where
  "iterate v =
     range_for (data_m v) (begin_ssv v) (end_ssv v) (\<lambda>val acc. Inr (acc @ [val])) []"

text \<open>
  The constructors start from the default container and call \<open>push_back\<close> for each
  value; an exception of \<open>push_back\<close> leaves the constructor.
\<close>

definition push_back_or_throw ::
  "'w::len word \<Rightarrow> 'a \<Rightarrow> ('a, 'w) simple_stack_vector \<Rightarrow> error + ('a, 'w) simple_stack_vector"
  where
  "push_back_or_throw Capacity val v =
     (case push_back Capacity val v of
        (Inl e, v1) \<Rightarrow> Inl e
      | (Inr r, v1) \<Rightarrow> Inr v1)"

fun push_back_each ::
  "'w::len word \<Rightarrow> 'a list \<Rightarrow> ('a, 'w) simple_stack_vector
     \<Rightarrow> error + ('a, 'w) simple_stack_vector" where
  "push_back_each Capacity [] v = Inr v"
| "push_back_each Capacity (val # vals) v =
     (case push_back_or_throw Capacity val v of
        Inl e \<Rightarrow> Inl e
      | Inr v1 \<Rightarrow> push_back_each Capacity vals v1)"

definition simple_stack_vector_init ::
  "'a \<Rightarrow> 'w::len word \<Rightarrow> 'a list \<Rightarrow> error + ('a, 'w) simple_stack_vector" where
  "simple_stack_vector_init dflt Capacity vals =
     push_back_each Capacity vals (simple_stack_vector_default dflt Capacity)"

text \<open>
  The converting constructor iterates over the other container and pushes
  \<open>Contained{value}\<close>; \<open>conv\<close> is that conversion.
\<close>

definition simple_stack_vector_from_other ::
  "('b \<Rightarrow> 'a) \<Rightarrow> 'a \<Rightarrow> 'w::len word \<Rightarrow> ('b, 'w) simple_stack_vector
     \<Rightarrow> error + ('a, 'w) simple_stack_vector" where
  "simple_stack_vector_from_other conv dflt Capacity other =
     range_for (data_m other) (begin_ssv other) (end_ssv other)
       (\<lambda>val v. push_back_or_throw Capacity (conv val) v)
       (simple_stack_vector_default dflt Capacity)"

text \<open>The const subscript operator, read at once.\<close>

definition subscript_const :: "('a, 'w::len) simple_stack_vector \<Rightarrow> 'w word \<Rightarrow> error + 'a" where
  "subscript_const v idx =
     (case array_subscript (data_m v) idx of
        Inl e \<Rightarrow> Inl e
      | Inr r \<Rightarrow> Inr (data_m v ! r))"

text \<open>
  \<open>operator==\<close>: the loop \<open>for (idx = 0; idx < lhs.size(); ++idx)\<close> returns false at
  the first index where the elements differ. The two capacities are template parameters
  that the body never reads.
\<close>

function operator_eq_loop ::
  "('a, 'w::len) simple_stack_vector \<Rightarrow> ('a, 'w) simple_stack_vector \<Rightarrow> 'w word
     \<Rightarrow> error + bool" where
  "operator_eq_loop lhs rhs idx =
     (if idx < size_ssv lhs
      then (case subscript_const lhs idx of
              Inl e \<Rightarrow> Inl e
            | Inr a \<Rightarrow>
                (case subscript_const rhs idx of
                   Inl e \<Rightarrow> Inl e
                 | Inr b \<Rightarrow>
                     if a \<noteq> b then Inr False else operator_eq_loop lhs rhs (idx + 1)))
      else Inr True)"
  by pat_completeness auto
termination
proof (relation "measure (\<lambda>(lhs, rhs, idx). unat (size_ssv lhs) - unat idx)")
  show "wf (measure (\<lambda>(lhs :: ('a, 'w::len) simple_stack_vector,
                       rhs :: ('a, 'w) simple_stack_vector, idx :: 'w word).
                      unat (size_ssv lhs) - unat idx))"
    by simp
next
  fix lhs rhs :: "('a, 'w::len) simple_stack_vector" and idx :: "'w word"
  assume less: "idx < size_ssv lhs"
  then have "idx + 1 \<noteq> 0"
    by (metis eq_neg_iff_add_eq_0 word_order.extremum_strict)
  then have "unat (idx + 1) = Suc (unat idx)"
    using unatSuc [of idx] by (simp add: add.commute)
  moreover from less have "unat idx < unat (size_ssv lhs)"
    by (simp add: word_less_nat_alt)
  ultimately show "((lhs, rhs, idx + 1), (lhs, rhs, idx))
      \<in> measure (\<lambda>(lhs, rhs, idx). unat (size_ssv lhs) - unat idx)"
    by simp
qed

definition operator_eq ::
  "('a, 'w::len) simple_stack_vector \<Rightarrow> ('a, 'w) simple_stack_vector \<Rightarrow> error + bool" where
  "operator_eq lhs rhs =
     (if size_ssv lhs = size_ssv rhs then operator_eq_loop lhs rhs 0 else Inr False)"

subsection \<open>The container as a state machine\<close>

text \<open>
  A container of the type \<open>simple_stack_vector<Contained, Capacity>\<close> has exactly
  \<open>Capacity\<close> slots.
\<close>

definition has_capacity :: "'w::len word \<Rightarrow> ('a, 'w) simple_stack_vector \<Rightarrow> bool" where
  "has_capacity Capacity v = (length (data_m v) = unat Capacity)"

text \<open>Invariant I1 of the specification: \<open>0 \<le> length \<le> N\<close>.\<close>

definition length_in_bounds :: "'w::len word \<Rightarrow> ('a, 'w) simple_stack_vector \<Rightarrow> bool" where
  "length_in_bounds Capacity v = (0 \<le> size_m v \<and> size_m v \<le> Capacity)"


text \<open>
  The operations that change a container, as the transitions of a state machine. The
  successor state is the container as the call leaves it, also when the call throws.
\<close>

datatype ('a, 'n) operation =
  Push_back 'a
  | Emplace_back 'a
  | Pop_back
  | Clear
  | Resize 'n
  | Reserve 'n
  | Shrink_to_fit

fun apply_operation ::
  "('a list \<Rightarrow> 'a) \<Rightarrow> 'a \<Rightarrow> 'w::len word \<Rightarrow> ('a, 'w word) operation
     \<Rightarrow> ('a, 'w) simple_stack_vector \<Rightarrow> ('a, 'w) simple_stack_vector" where
  "apply_operation of_data_type dflt Capacity (Push_back x) v = snd (push_back Capacity x v)"
| "apply_operation of_data_type dflt Capacity (Emplace_back x) v =
     snd (emplace_back Capacity (\<lambda>p. p) x v)"
| "apply_operation of_data_type dflt Capacity Pop_back v = pop_back v"
| "apply_operation of_data_type dflt Capacity Clear v = clear v"
| "apply_operation of_data_type dflt Capacity (Resize n) v =
     snd (resize of_data_type dflt Capacity n v)"
| "apply_operation of_data_type dflt Capacity (Reserve n) v = snd (reserve Capacity n v)"
| "apply_operation of_data_type dflt Capacity Shrink_to_fit v = shrink_to_fit v"

text \<open>The one precondition among them: \<open>pop_back\<close> needs a length above zero.\<close>

fun precondition :: "('a, 'w::len word) operation \<Rightarrow> ('a, 'w) simple_stack_vector \<Rightarrow> bool" where
  "precondition Pop_back v = (size_m v > 0)"
| "precondition opn v = True"

fun run ::
  "('a list \<Rightarrow> 'a) \<Rightarrow> 'a \<Rightarrow> 'w::len word \<Rightarrow> ('a, 'w word) operation list
     \<Rightarrow> ('a, 'w) simple_stack_vector \<Rightarrow> ('a, 'w) simple_stack_vector" where
  "run of_data_type dflt Capacity [] v = v"
| "run of_data_type dflt Capacity (opn # opns) v =
     run of_data_type dflt Capacity opns (apply_operation of_data_type dflt Capacity opn v)"

text \<open>A run in which every operation is called with its precondition met.\<close>

fun preconditions_hold ::
  "('a list \<Rightarrow> 'a) \<Rightarrow> 'a \<Rightarrow> 'w::len word \<Rightarrow> ('a, 'w word) operation list
     \<Rightarrow> ('a, 'w) simple_stack_vector \<Rightarrow> bool" where
  "preconditions_hold of_data_type dflt Capacity [] v = True"
| "preconditions_hold of_data_type dflt Capacity (opn # opns) v =
     (precondition opn v
      \<and> preconditions_hold of_data_type dflt Capacity opns
            (apply_operation of_data_type dflt Capacity opn v))"

section \<open>The integer wrapper \<open>int_np\<close>\<close>

text \<open>
  \<open>int_np<Type>\<close> wraps one integer of a \<open>std::integral\<close> type. The types covered are
  the two's complement types of 8, 16, 32 and 64 bits, signed and unsigned, which the
  source's aliases instantiate; a type is its width and its signedness, a value of the
  type an \<open>int\<close> in its range. \<open>int\<close> itself has 32 bits.
\<close>

record int_type =
  bits :: nat
  is_signed :: bool

definition uint8_t :: int_type where "uint8_t = \<lparr>bits = 8, is_signed = False\<rparr>"
definition uint16_t :: int_type where "uint16_t = \<lparr>bits = 16, is_signed = False\<rparr>"
definition uint32_t :: int_type where "uint32_t = \<lparr>bits = 32, is_signed = False\<rparr>"
definition int16_t :: int_type where "int16_t = \<lparr>bits = 16, is_signed = True\<rparr>"
definition int64_t :: int_type where "int64_t = \<lparr>bits = 64, is_signed = True\<rparr>"












text \<open>The class has the one member \<open>value\<close>, here \<open>value_m\<close>.\<close>

record int_np =
  value_m :: int


definition get :: "int_np \<Rightarrow> int" where
  "get x = value_m x"







section \<open>Facts about the container\<close>

declare resize_loop.simps [simp del]
declare range_for.simps [simp del]
declare operator_eq_loop.simps [simp del]

lemma word_Suc_less_neq_0: "(s :: 'w::len word) < c \<Longrightarrow> s + 1 \<noteq> 0"
  by (metis eq_neg_iff_add_eq_0 word_order.extremum_strict)

lemma unat_Suc_less: "(s :: 'w::len word) < c \<Longrightarrow> unat (s + 1) = Suc (unat s)"
  using unatSuc [of s] word_Suc_less_neq_0 [of s c] by (simp add: add.commute)

lemma unat_less_length:
  "has_capacity Capacity v \<Longrightarrow> s < Capacity \<Longrightarrow> unat s < length (data_m v)"
  by (simp add: has_capacity_def word_less_nat_alt)

text \<open>
  Claim C1. When the length equals the capacity, \<open>push_back\<close> throws
  \<open>std::length_error\<close> and the container is the one before the call. When the length
  is below the capacity, the value is assigned to slot \<open>length\<close>, the length grows by
  one, no other slot changes, and the reference returned is to that slot, a slot of
  the array, which holds the value.
\<close>

theorem push_back_full_or_append:
  assumes "has_capacity Capacity v"
  shows "(size_m v = Capacity \<longrightarrow>
            (\<exists>msg. fst (push_back Capacity val v) = Inl (length_error msg))
            \<and> snd (push_back Capacity val v) = v)
         \<and> (size_m v < Capacity \<longrightarrow>
            fst (push_back Capacity val v) = Inr (unat (size_m v))
            \<and> unat (size_m v) < length (data_m (snd (push_back Capacity val v)))
            \<and> data_m (snd (push_back Capacity val v)) = (data_m v)[unat (size_m v) := val]
            \<and> size_m (snd (push_back Capacity val v)) = size_m v + 1
            \<and> unat (size_m (snd (push_back Capacity val v))) = unat (size_m v) + 1
            \<and> deref (snd (push_back Capacity val v)) (unat (size_m v)) = val)"
proof (intro conjI impI)
  assume full: "size_m v = Capacity"
  then show "\<exists>msg. fst (push_back Capacity val v) = Inl (length_error msg)"
    by (simp add: push_back_def)
  from full show "snd (push_back Capacity val v) = v"
    by (simp add: push_back_def)
next
  assume room: "size_m v < Capacity"
  then have ne: "size_m v \<noteq> Capacity" by simp
  from assms room have inb: "unat (size_m v) < length (data_m v)"
    by (rule unat_less_length)
  have sub: "array_subscript (data_m v) (size_m v) = Inr (unat (size_m v))"
    using inb by (simp add: array_subscript_def)
  have pb: "push_back Capacity val v =
      (Inr (unat (size_m v)),
       v\<lparr>data_m := (data_m v)[unat (size_m v) := val], size_m := size_m v + 1\<rparr>)"
    using ne sub inb by (simp add: push_back_def array_subscript_def Let_def)
  show "fst (push_back Capacity val v) = Inr (unat (size_m v))"
    by (simp add: pb)
  show "unat (size_m v) < length (data_m (snd (push_back Capacity val v)))"
    using inb by (simp add: pb)
  show "data_m (snd (push_back Capacity val v)) = (data_m v)[unat (size_m v) := val]"
    by (simp add: pb)
  show "size_m (snd (push_back Capacity val v)) = size_m v + 1"
    by (simp add: pb)
  show "unat (size_m (snd (push_back Capacity val v))) = unat (size_m v) + 1"
    using room by (simp add: pb unat_Suc_less)
  show "deref (snd (push_back Capacity val v)) (unat (size_m v)) = val"
    using inb by (simp add: pb deref_def)
qed

theorem push_back_full_or_append_witness:
  "has_capacity (3 :: 64 word) \<lparr>data_m = [10, 20, 30 :: int], size_m = 3\<rparr>
   \<and> (\<exists>msg. fst (push_back (3 :: 64 word) 40 \<lparr>data_m = [10, 20, 30 :: int], size_m = 3\<rparr>)
               = Inl (length_error msg))
   \<and> snd (push_back (3 :: 64 word) 40 \<lparr>data_m = [10, 20, 30 :: int], size_m = 3\<rparr>)
       = \<lparr>data_m = [10, 20, 30], size_m = 3\<rparr>
   \<and> has_capacity (3 :: 64 word) \<lparr>data_m = [10, 20, 30 :: int], size_m = 2\<rparr>
   \<and> fst (push_back (3 :: 64 word) 99 \<lparr>data_m = [10, 20, 30 :: int], size_m = 2\<rparr>) = Inr 2
   \<and> data_m (snd (push_back (3 :: 64 word) 99 \<lparr>data_m = [10, 20, 30 :: int], size_m = 2\<rparr>))
       = [10, 20, 99]
   \<and> size_m (snd (push_back (3 :: 64 word) 99 \<lparr>data_m = [10, 20, 30 :: int], size_m = 2\<rparr>))
       = 3"
proof -
  have full: "has_capacity (3 :: 64 word) \<lparr>data_m = [10, 20, 30 :: int], size_m = 3\<rparr>"
    by (simp add: has_capacity_def)
  have room: "has_capacity (3 :: 64 word) \<lparr>data_m = [10, 20, 30 :: int], size_m = 2\<rparr>"
    by (simp add: has_capacity_def)
  show ?thesis
    using full room push_back_full_or_append [OF full, of 40]
      push_back_full_or_append [OF room, of 99]
    by simp
qed

lemma resize_loop_fill:
  "old_end \<le> new_end \<Longrightarrow> new_end \<le> length d \<Longrightarrow>
   resize_loop x new_end old_end d
     = Inr (take old_end d @ replicate (new_end - old_end) x @ drop new_end d)"
proof (induction x new_end old_end d rule: resize_loop.induct)
  case (1 x new_end old_end d)
  show ?case
  proof (cases "old_end = new_end")
    case True
    then show ?thesis by (subst resize_loop.simps) simp
  next
    case False
    with "1.prems" have lt: "old_end < new_end" and inb: "old_end < length d" by simp_all
    have step: "resize_loop x new_end old_end d
        = resize_loop x new_end (Suc old_end) (d[old_end := x])"
      using False inb by (subst resize_loop.simps) simp
    have ih: "resize_loop x new_end (Suc old_end) (d[old_end := x])
        = Inr (take (Suc old_end) (d[old_end := x])
               @ replicate (new_end - Suc old_end) x @ drop new_end (d[old_end := x]))"
      using "1.IH" [OF False inb] lt "1.prems" by simp
    have t: "take (Suc old_end) (d[old_end := x]) = take old_end d @ [x]"
      using inb by (simp add: take_Suc_conv_app_nth)
    have r: "replicate (new_end - old_end) x = x # replicate (new_end - Suc old_end) x"
      using lt by (metis Suc_diff_Suc replicate_Suc)
    show ?thesis
      using lt by (simp add: step ih t r)
  qed
qed


lemma resize_shrink:
  "new_size \<le> size_m v \<Longrightarrow>
   resize of_data_type dflt Capacity new_size v = (Inr (), v\<lparr>size_m := new_size\<rparr>)"
  by (simp add: resize_def)

lemma resize_too_large:
  "size_m v < new_size \<Longrightarrow> Capacity < new_size \<Longrightarrow>
   \<exists>msg. resize of_data_type dflt Capacity new_size v = (Inl (length_error msg), v)"
  by (simp add: resize_def)

lemma resize_grow:
  assumes "has_capacity Capacity v" and "size_m v < new_size" and "new_size \<le> Capacity"
  shows "resize of_data_type dflt Capacity new_size v =
     (Inr (),
      v\<lparr>size_m := new_size,
        data_m := take (unat (size_m v)) (data_m v)
                  @ replicate (unat new_size - unat (size_m v))
                      (of_data_type (replicate (unat Capacity) dflt))
                  @ drop (unat new_size) (data_m v)\<rparr>)"
proof -
  from assms(2) have le: "unat (size_m v) \<le> unat new_size"
    by (simp add: word_less_nat_alt)
  from assms(1,3) have inb: "unat new_size \<le> length (data_m v)"
    by (simp add: has_capacity_def word_le_nat_alt)
  from assms(2) have a: "\<not> new_size \<le> size_m v" by simp
  from assms(3) have b: "\<not> Capacity < new_size" by simp
  show ?thesis
    using a b resize_loop_fill [OF le inb]
    by (simp add: resize_def end_ssv_def Let_def)
qed

text \<open>
  Claim C2 says that growing with \<open>resize\<close> leaves a freshly default-constructed
  element in each newly exposed slot. The source assigns \<open>data_type{}\<close>, the whole
  array type, where \<open>value_type{}\<close> was meant: what lands in the slot is the conversion
  of a default array to the element type (\<open>resize_grow\<close>), and for an element type
  without such a conversion, \<open>int\<close> among them, \<open>resize\<close> does not compile. Here the
  element type wraps an integer, its default is 0 and its conversion from the array
  gives 7: after \<open>resize(3)\<close> on a container of length 1 the slots 1 and 2 hold 7,
  not 0. The length and the capacity check are as the claim has them.
\<close>

theorem resize_growth_assigns_data_type:
  "resize (\<lambda>a. 7) 0 (4 :: 64 word) 3 \<lparr>data_m = [0, 0, 5, 0 :: int], size_m = 1\<rparr>
     = (Inr (), \<lparr>data_m = [0, 7, 7, 0], size_m = 3\<rparr>)"
  by code_simp

lemma front_ssv_first_slot:
  "has_capacity Capacity v \<Longrightarrow> 0 < size_m v \<Longrightarrow> size_m v \<le> Capacity \<Longrightarrow>
   front_ssv v = Inr 0 \<and> deref v 0 = data_m v ! 0 \<and> 0 < length (data_m v)"
  by (auto simp: front_ssv_def array_front_def deref_def has_capacity_def
      word_less_nat_alt word_le_nat_alt)

lemma back_ssv_last_slot:
  "has_capacity Capacity v \<Longrightarrow> 0 < Capacity \<Longrightarrow> back_ssv v = Inr (unat Capacity - 1)"
  by (auto simp: back_ssv_def array_back_def has_capacity_def word_less_nat_alt)

text \<open>
  Claim C3 says that \<open>back()\<close> returns the last live element, the one at index
  \<open>length - 1\<close>. \<open>front()\<close> does return slot 0 (\<open>front_ssv_first_slot\<close>), but \<open>back()\<close>
  is the array's own \<open>back()\<close>, the slot \<open>Capacity - 1\<close> whatever the length
  (\<open>back_ssv_last_slot\<close>); \<open>end()\<close> and \<open>rbegin()\<close> do account for the length. With
  capacity 3 and the single value 10 pushed, \<open>back()\<close> refers to slot 2, which holds
  the default 0, while the last live element is the 10 in slot 0.
\<close>

theorem back_ssv_stale_slot:
  "simple_stack_vector_init (0 :: int) (3 :: 64 word) [10]
     = Inr \<lparr>data_m = [10, 0, 0], size_m = 1\<rparr>
   \<and> back_ssv \<lparr>data_m = [10, 0, 0 :: int], size_m = 1 :: 64 word\<rparr> = Inr 2
   \<and> deref \<lparr>data_m = [10, 0, 0 :: int], size_m = 1 :: 64 word\<rparr> 2 = 0
   \<and> unat (size_m \<lparr>data_m = [10, 0, 0 :: int], size_m = 1 :: 64 word\<rparr>) - 1 = 0
   \<and> deref \<lparr>data_m = [10, 0, 0 :: int], size_m = 1 :: 64 word\<rparr> 0 = 10"
  by code_simp

text \<open>
  Claim C5. On a container with \<open>Capacity\<close> slots whose length is within bounds, and for
  every index of type \<open>std::size_t\<close>: \<open>at\<close> throws \<open>std::out_of_range\<close> exactly when the
  index is not below \<open>size()\<close>; below it, \<open>at\<close> returns the reference to slot \<open>idx\<close>
  (the const overload: the element there), a live slot inside the array; and the
  container is the same after the call.
\<close>

theorem at_out_of_range_iff:
  assumes "has_capacity Capacity v" and "length_in_bounds Capacity v"
  shows "((\<exists>msg. fst (at idx v) = Inl (out_of_range msg)) \<longleftrightarrow> idx \<ge> size_ssv v)
         \<and> ((\<exists>msg. at_const idx v = Inl (out_of_range msg)) \<longleftrightarrow> idx \<ge> size_ssv v)
         \<and> (idx < size_ssv v \<longrightarrow>
              fst (at idx v) = Inr (unat idx)
              \<and> at_const idx v = Inr (data_m v ! unat idx)
              \<and> unat idx < unat (size_m v)
              \<and> unat idx < length (data_m v))
         \<and> snd (at idx v) = v"
proof -
  have inb: "unat idx < unat (size_m v) \<and> unat idx < length (data_m v)" if "idx < size_m v"
    using that assms
    by (simp add: has_capacity_def length_in_bounds_def word_less_nat_alt word_le_nat_alt)
  show ?thesis
    using inb
    by (auto simp: at_def at_const_def array_subscript_def size_ssv_def)
qed

theorem at_out_of_range_iff_witness:
  "has_capacity (3 :: 64 word) \<lparr>data_m = [10, 20, 0 :: int], size_m = 2\<rparr>
   \<and> length_in_bounds (3 :: 64 word) \<lparr>data_m = [10, 20, 0 :: int], size_m = 2\<rparr>
   \<and> fst (at 1 \<lparr>data_m = [10, 20, 0 :: int], size_m = 2 :: 64 word\<rparr>) = Inr 1
   \<and> at_const 1 \<lparr>data_m = [10, 20, 0 :: int], size_m = 2 :: 64 word\<rparr> = Inr 20
   \<and> (\<exists>msg. fst (at 2 \<lparr>data_m = [10, 20, 0 :: int], size_m = 2 :: 64 word\<rparr>)
          = Inl (out_of_range msg))
   \<and> (\<exists>msg. at_const 7 \<lparr>data_m = [10, 20, 0 :: int], size_m = 2 :: 64 word\<rparr>
          = Inl (out_of_range msg))
   \<and> snd (at 7 \<lparr>data_m = [10, 20, 0 :: int], size_m = 2 :: 64 word\<rparr>)
       = \<lparr>data_m = [10, 20, 0], size_m = 2\<rparr>"
proof -
  have hc: "has_capacity (3 :: 64 word) \<lparr>data_m = [10, 20, 0 :: int], size_m = 2\<rparr>"
    by (simp add: has_capacity_def)
  have lb: "length_in_bounds (3 :: 64 word) \<lparr>data_m = [10, 20, 0 :: int], size_m = 2\<rparr>"
    by (simp add: length_in_bounds_def)
  show ?thesis
    using hc lb at_out_of_range_iff [OF hc lb, of 1] at_out_of_range_iff [OF hc lb, of 2]
      at_out_of_range_iff [OF hc lb, of 7]
    by (simp add: size_ssv_def)
qed

text \<open>
  Claim C9. \<open>clear\<close> sets the length to 0; \<open>pop_back\<close> on a length above 0 takes exactly
  one off it; neither touches a slot. \<open>capacity()\<close> is the template parameter, and a
  container that has that many slots still has them after \<open>clear\<close>, \<open>push_back\<close>,
  \<open>pop_back\<close> and \<open>resize\<close>.
\<close>

theorem clear_pop_back_frame:
  "size_m (clear v) = 0
   \<and> data_m (clear v) = data_m v
   \<and> (0 < size_m v \<longrightarrow>
        size_m (pop_back v) = size_m v - 1 \<and> Suc (unat (size_m (pop_back v))) = unat (size_m v))
   \<and> data_m (pop_back v) = data_m v
   \<and> (has_capacity Capacity v \<longrightarrow>
        has_capacity (capacity Capacity) (clear v)
        \<and> has_capacity (capacity Capacity) (snd (push_back Capacity x v))
        \<and> has_capacity (capacity Capacity) (pop_back v)
        \<and> has_capacity (capacity Capacity) (snd (resize of_data_type dflt Capacity n v)))"
proof -
  have pop: "Suc (unat (size_m v - 1)) = unat (size_m v)" if "0 < size_m v"
    using that by (metis Suc_pred' unat_gt_0 unat_minus_one word_neq_0_conv)
  have rs: "length (data_m (snd (resize of_data_type dflt Capacity n v))) = length (data_m v)"
    if hc: "has_capacity Capacity v"
  proof -
    consider "n \<le> size_m v" | "size_m v < n" "Capacity < n" | "size_m v < n" "n \<le> Capacity"
      by (meson not_le_imp_less)
    then show ?thesis
    proof cases
      case 1
      then show ?thesis by (simp add: resize_shrink)
    next
      case 2
      then show ?thesis using resize_too_large [OF 2, of of_data_type dflt] by auto
    next
      case 3
      from 3 have le: "unat (size_m v) \<le> unat n" by (simp add: word_less_nat_alt)
      from 3 hc have inb: "unat n \<le> length (data_m v)"
        by (simp add: has_capacity_def word_le_nat_alt)
      show ?thesis using le inb by (simp add: resize_grow [OF hc 3])
    qed
  qed
  have pb: "length (data_m (snd (push_back Capacity x v))) = length (data_m v)"
    by (simp add: push_back_def array_subscript_def Let_def)
  show ?thesis
    using pop rs pb by (simp add: clear_def pop_back_def has_capacity_def capacity_def)
qed

theorem clear_pop_back_frame_witness:
  "0 < size_m \<lparr>data_m = [10, 20, 0 :: int], size_m = 2 :: 64 word\<rparr>
   \<and> has_capacity (3 :: 64 word) \<lparr>data_m = [10, 20, 0 :: int], size_m = 2\<rparr>
   \<and> size_m (clear \<lparr>data_m = [10, 20, 0 :: int], size_m = 2 :: 64 word\<rparr>) = 0
   \<and> data_m (clear \<lparr>data_m = [10, 20, 0 :: int], size_m = 2 :: 64 word\<rparr>) = [10, 20, 0]
   \<and> size_m (pop_back \<lparr>data_m = [10, 20, 0 :: int], size_m = 2 :: 64 word\<rparr>) = 1
   \<and> data_m (pop_back \<lparr>data_m = [10, 20, 0 :: int], size_m = 2 :: 64 word\<rparr>) = [10, 20, 0]
   \<and> has_capacity (3 :: 64 word)
        (snd (resize (\<lambda>a. 0) 0 3 3 \<lparr>data_m = [10, 20, 0 :: int], size_m = 2\<rparr>))
   \<and> has_capacity (3 :: 64 word)
        (snd (push_back 3 30 \<lparr>data_m = [10, 20, 0 :: int], size_m = 2\<rparr>))"
proof -
  have pos: "0 < size_m \<lparr>data_m = [10, 20, 0 :: int], size_m = 2 :: 64 word\<rparr>"
    by simp
  have hc: "has_capacity (3 :: 64 word) \<lparr>data_m = [10, 20, 0 :: int], size_m = 2\<rparr>"
    by (simp add: has_capacity_def)
  show ?thesis
    using pos hc
      clear_pop_back_frame [of "\<lparr>data_m = [10, 20, 0 :: int], size_m = 2 :: 64 word\<rparr>"
        3 30 "\<lambda>a. 0" 0 3]
    by (simp add: capacity_def)
qed

text \<open>
  Claim C10. \<open>pop_back\<close> has no check and no error: on a length of 0 it subtracts one
  from the unsigned counter all the same, which wraps to the largest value of
  \<open>std::size_t\<close>, \<open>2 ^ w - 1\<close>, and the length is then above the capacity. (The
  capacity itself is below \<open>2 ^ w - 1\<close>: the object holds that many slots and the
  counter, and its size in bytes is a \<open>std::size_t\<close>.)
\<close>

theorem pop_back_empty_wraps:
  fixes v :: "('a, 'w::len) simple_stack_vector"
  assumes "size_m v = 0" and "unat Capacity < 2 ^ LENGTH('w) - 1"
  shows "pop_back v = v\<lparr>size_m := - 1\<rparr>
         \<and> unat (size_ssv (pop_back v)) = 2 ^ LENGTH('w) - 1
         \<and> \<not> length_in_bounds Capacity (pop_back v)"
proof -
  have m: "unat (- 1 :: 'w word) = 2 ^ LENGTH('w) - 1"
    by (simp add: unsigned_minus_1_eq_mask mask_eq_exp_minus_1)
  have "\<not> (- 1 :: 'w word) \<le> Capacity"
    using assms(2) m by (simp add: word_le_nat_alt)
  then show ?thesis
    using assms(1) m by (simp add: pop_back_def size_ssv_def length_in_bounds_def)
qed

theorem pop_back_empty_wraps_witness:
  "size_m \<lparr>data_m = [0, 0, 0 :: int], size_m = 0 :: 64 word\<rparr> = 0
   \<and> unat (3 :: 64 word) < 2 ^ LENGTH(64) - 1
   \<and> unat (size_ssv (pop_back \<lparr>data_m = [0, 0, 0 :: int], size_m = 0 :: 64 word\<rparr>))
       = 18446744073709551615
   \<and> \<not> length_in_bounds (3 :: 64 word)
          (pop_back \<lparr>data_m = [0, 0, 0 :: int], size_m = 0 :: 64 word\<rparr>)"
proof -
  have e: "size_m \<lparr>data_m = [0, 0, 0 :: int], size_m = 0 :: 64 word\<rparr> = 0"
    by simp
  have c: "unat (3 :: 64 word) < 2 ^ LENGTH(64) - 1"
    by simp
  have w: "unat (size_ssv (pop_back \<lparr>data_m = [0, 0, 0 :: int], size_m = 0 :: 64 word\<rparr>))
        = 2 ^ LENGTH(64) - 1
      \<and> \<not> length_in_bounds (3 :: 64 word)
            (pop_back \<lparr>data_m = [0, 0, 0 :: int], size_m = 0 :: 64 word\<rparr>)"
    using pop_back_empty_wraps [OF e c] by blast
  show ?thesis
    using e c w by simp
qed

lemma push_back_room:
  assumes "has_capacity Capacity v" and "size_m v < Capacity"
  shows "push_back Capacity val v =
      (Inr (unat (size_m v)),
       v\<lparr>data_m := (data_m v)[unat (size_m v) := val], size_m := size_m v + 1\<rparr>)"
proof -
  from assms have inb: "unat (size_m v) < length (data_m v)"
    by (rule unat_less_length)
  from assms(2) have ne: "size_m v \<noteq> Capacity" by simp
  show ?thesis
    using ne inb by (simp add: push_back_def array_subscript_def Let_def)
qed

lemma push_back_each_append:
  "has_capacity Capacity v \<Longrightarrow> unat (size_m v) + length vals \<le> unat Capacity \<Longrightarrow>
   push_back_each Capacity vals v =
     Inr (v\<lparr>data_m := take (unat (size_m v)) (data_m v) @ vals
                       @ drop (unat (size_m v) + length vals) (data_m v),
            size_m := size_m v + of_nat (length vals)\<rparr>)"
proof (induction vals arbitrary: v)
  case Nil
  then show ?case by simp
next
  case (Cons val vals)
  let ?s = "unat (size_m v)"
  let ?v1 = "v\<lparr>data_m := (data_m v)[?s := val], size_m := size_m v + 1\<rparr>"
  from Cons.prems have room: "size_m v < Capacity"
    by (simp add: word_less_nat_alt)
  have inb: "?s < length (data_m v)"
    using Cons.prems(1) room by (rule unat_less_length)
  have suc: "unat (size_m v + 1) = Suc ?s"
    using room by (rule unat_Suc_less)
  have step: "push_back_or_throw Capacity val v = Inr ?v1"
    by (simp add: push_back_or_throw_def push_back_room [OF Cons.prems(1) room])
  have hc1: "has_capacity Capacity ?v1"
    using Cons.prems(1) by (simp add: has_capacity_def)
  have fits: "unat (size_m ?v1) + length vals \<le> unat Capacity"
    using Cons.prems(2) suc by simp
  have t: "take (Suc ?s) ((data_m v)[?s := val]) = take ?s (data_m v) @ [val]"
    using inb by (simp add: take_Suc_conv_app_nth)
  show ?case
    using Cons.IH [OF hc1 fits] by (simp add: step suc t add.assoc)
qed

lemma range_for_collect:
  "it \<le> end_it \<Longrightarrow> end_it \<le> length d \<Longrightarrow> n = end_it - it \<Longrightarrow>
   range_for d it end_it (\<lambda>val acc. Inr (acc @ [val])) acc
     = Inr (acc @ take (end_it - it) (drop it d))"
proof (induction n arbitrary: it acc)
  case 0
  then have "it = end_it" by simp
  then show ?case by (subst range_for.simps) simp
next
  case (Suc n)
  then have ne: "it \<noteq> end_it" and inb: "it < length d" and lt: "it < end_it" by simp_all
  have step: "range_for d it end_it (\<lambda>val acc. Inr (acc @ [val])) acc
      = range_for d (Suc it) end_it (\<lambda>val acc. Inr (acc @ [val])) (acc @ [d ! it])"
    using ne inb by (subst range_for.simps) simp
  have ih: "range_for d (Suc it) end_it (\<lambda>val acc. Inr (acc @ [val])) (acc @ [d ! it])
      = Inr ((acc @ [d ! it]) @ take (end_it - Suc it) (drop (Suc it) d))"
    using Suc.prems by (intro Suc.IH) simp_all
  have "take (end_it - it) (drop it d) = d ! it # take (end_it - Suc it) (drop (Suc it) d)"
    using lt inb by (metis Cons_nth_drop_Suc Suc_diff_Suc take_Suc_Cons)
  then show ?case by (simp add: step ih)
qed

text \<open>
  Claim C6. For every capacity and every list of at most that many values, pushed one
  after the other into the default-constructed container: no \<open>push_back\<close> throws,
  \<open>size()\<close> is then the number of values, and the iteration from \<open>begin()\<close> to
  \<open>end()\<close> visits exactly these values in the order of the pushes, and no stale slot.
\<close>

theorem pushes_succeed_and_iterate:
  fixes Capacity :: "'w::len word"
  assumes "length vals \<le> unat Capacity"
  shows "\<exists>v. simple_stack_vector_init dflt Capacity vals = Inr v
             \<and> size_ssv v = of_nat (length vals)
             \<and> unat (size_ssv v) = length vals
             \<and> iterate v = Inr vals"
proof -
  let ?d = "simple_stack_vector_default dflt Capacity"
  let ?v = "?d\<lparr>data_m := take (unat (size_m ?d)) (data_m ?d) @ vals
                       @ drop (unat (size_m ?d) + length vals) (data_m ?d),
              size_m := size_m ?d + of_nat (length vals)\<rparr>"
  have hc: "has_capacity Capacity ?d"
    by (simp add: has_capacity_def simple_stack_vector_default_def)
  have fits: "unat (size_m ?d) + length vals \<le> unat Capacity"
    using assms by (simp add: simple_stack_vector_default_def)
  have init: "simple_stack_vector_init dflt Capacity vals = Inr ?v"
    unfolding simple_stack_vector_init_def by (rule push_back_each_append [OF hc fits])
  have un: "unat (of_nat (length vals) :: 'w word) = length vals"
    using assms by (rule le_unat_uoi)
  have sz: "size_m ?v = of_nat (length vals)"
    by (simp add: simple_stack_vector_default_def)
  have dat: "data_m ?v = vals @ drop (length vals) (replicate (unat Capacity) dflt)"
    by (simp add: simple_stack_vector_default_def)
  have "iterate ?v = Inr ([] @ take (length vals - 0) (drop 0 (data_m ?v)))"
    unfolding iterate_def begin_ssv_def end_ssv_def
    using assms by (subst range_for_collect [where n = "length vals"]) (simp_all add: sz un dat)
  then have it: "iterate ?v = Inr vals"
    by (simp add: dat)
  show ?thesis
    using init sz un it by (simp add: size_ssv_def)
qed

theorem pushes_succeed_and_iterate_witness:
  "length [10, 20, 30 :: int] \<le> unat (3 :: 64 word)
   \<and> (\<exists>v. simple_stack_vector_init 0 (3 :: 64 word) [10, 20, 30 :: int] = Inr v
          \<and> size_ssv v = 3
          \<and> iterate v = Inr [10, 20, 30])"
proof -
  have le: "length [10, 20, 30 :: int] \<le> unat (3 :: 64 word)"
    by simp
  show ?thesis
    using le pushes_succeed_and_iterate [OF le, of 0] by auto
qed

lemma operator_eq_loop_all:
  "unat (size_m lhs) \<le> length (data_m lhs) \<Longrightarrow> unat (size_m lhs) \<le> length (data_m rhs) \<Longrightarrow>
   operator_eq_loop lhs rhs idx
     = Inr (\<forall>i. unat idx \<le> i \<and> i < unat (size_m lhs) \<longrightarrow> data_m lhs ! i = data_m rhs ! i)"
proof (induction lhs rhs idx rule: operator_eq_loop.induct)
  case (1 lhs rhs idx)
  show ?case
  proof (cases "idx < size_m lhs")
    case False
    then have "unat (size_m lhs) \<le> unat idx"
      by (simp add: word_less_nat_alt)
    then have none: "\<not> (\<exists>i. unat idx \<le> i \<and> i < unat (size_m lhs))"
      by auto
    from False have "operator_eq_loop lhs rhs idx = Inr True"
      by (subst operator_eq_loop.simps) (simp add: size_ssv_def)
    with none show ?thesis by auto
  next
    case True
    then have lt: "unat idx < unat (size_m lhs)"
      by (simp add: word_less_nat_alt)
    have suc: "unat (idx + 1) = Suc (unat idx)"
      using True by (rule unat_Suc_less)
    have l: "subscript_const lhs idx = Inr (data_m lhs ! unat idx)"
      using lt "1.prems"(1) by (simp add: subscript_const_def array_subscript_def)
    have r: "subscript_const rhs idx = Inr (data_m rhs ! unat idx)"
      using lt "1.prems"(2) by (simp add: subscript_const_def array_subscript_def)
    show ?thesis
    proof (cases "data_m lhs ! unat idx = data_m rhs ! unat idx")
      case False
      have "operator_eq_loop lhs rhs idx = Inr False"
        using True l r False by (subst operator_eq_loop.simps) (simp add: size_ssv_def)
      moreover have "\<not> (\<forall>i. unat idx \<le> i \<and> i < unat (size_m lhs)
                          \<longrightarrow> data_m lhs ! i = data_m rhs ! i)"
        using False lt by auto
      ultimately show ?thesis by simp
    next
      case same: True
      have step: "operator_eq_loop lhs rhs idx = operator_eq_loop lhs rhs (idx + 1)"
        using True l r same by (subst operator_eq_loop.simps) (simp add: size_ssv_def)
      have ih: "operator_eq_loop lhs rhs (idx + 1)
          = Inr (\<forall>i. Suc (unat idx) \<le> i \<and> i < unat (size_m lhs)
                      \<longrightarrow> data_m lhs ! i = data_m rhs ! i)"
        using "1.IH" [OF _ l r _ "1.prems"] True same by (simp add: size_ssv_def suc)
      have "(\<forall>i. Suc (unat idx) \<le> i \<and> i < unat (size_m lhs)
                \<longrightarrow> data_m lhs ! i = data_m rhs ! i)
          \<longleftrightarrow> (\<forall>i. unat idx \<le> i \<and> i < unat (size_m lhs)
                \<longrightarrow> data_m lhs ! i = data_m rhs ! i)"
        using same by (metis Suc_leI le_neq_implies_less Suc_leD)
      then show ?thesis by (simp add: step ih)
    qed
  qed
qed

text \<open>
  Claim C7. For two containers of the same element type, with \<open>M\<close> and \<open>N\<close> slots and
  lengths within bounds, \<open>operator==\<close> returns true exactly when the lengths are equal
  and the elements at every index below the length are equal. The result is stated
  without \<open>M\<close> and \<open>N\<close>.
\<close>

theorem operator_eq_iff:
  assumes "has_capacity M lhs" and "length_in_bounds M lhs"
    and "has_capacity N rhs" and "length_in_bounds N rhs"
  shows "operator_eq lhs rhs
           = Inr (size_ssv lhs = size_ssv rhs
                  \<and> (\<forall>i < unat (size_ssv lhs). data_m lhs ! i = data_m rhs ! i))"
proof (cases "size_m lhs = size_m rhs")
  case False
  then show ?thesis by (simp add: operator_eq_def size_ssv_def)
next
  case True
  have l: "unat (size_m lhs) \<le> length (data_m lhs)"
    using assms(1,2) by (simp add: has_capacity_def length_in_bounds_def word_le_nat_alt)
  have r: "unat (size_m lhs) \<le> length (data_m rhs)"
    using assms(3,4) True by (simp add: has_capacity_def length_in_bounds_def word_le_nat_alt)
  show ?thesis
    using True operator_eq_loop_all [OF l r, of 0]
    by (simp add: operator_eq_def size_ssv_def)
qed

theorem operator_eq_iff_witness:
  "has_capacity (5 :: 64 word) \<lparr>data_m = [1, 2, 3, 0, 0 :: int], size_m = 3\<rparr>
   \<and> length_in_bounds (5 :: 64 word) \<lparr>data_m = [1, 2, 3, 0, 0 :: int], size_m = 3\<rparr>
   \<and> has_capacity (8 :: 64 word) \<lparr>data_m = [1, 2, 3, 7, 7, 7, 7, 7 :: int], size_m = 3\<rparr>
   \<and> length_in_bounds (8 :: 64 word) \<lparr>data_m = [1, 2, 3, 7, 7, 7, 7, 7 :: int], size_m = 3\<rparr>
   \<and> has_capacity (8 :: 64 word) \<lparr>data_m = [1, 2, 4, 0, 0, 0, 0, 0 :: int], size_m = 3\<rparr>
   \<and> length_in_bounds (8 :: 64 word) \<lparr>data_m = [1, 2, 4, 0, 0, 0, 0, 0 :: int], size_m = 3\<rparr>
   \<and> operator_eq \<lparr>data_m = [1, 2, 3, 0, 0 :: int], size_m = 3 :: 64 word\<rparr>
         \<lparr>data_m = [1, 2, 3, 7, 7, 7, 7, 7], size_m = 3\<rparr> = Inr True
   \<and> operator_eq \<lparr>data_m = [1, 2, 3, 0, 0 :: int], size_m = 3 :: 64 word\<rparr>
         \<lparr>data_m = [1, 2, 4, 0, 0, 0, 0, 0], size_m = 3\<rparr> = Inr False"
proof -
  let ?a = "\<lparr>data_m = [1, 2, 3, 0, 0 :: int], size_m = 3 :: 64 word\<rparr>"
  let ?b = "\<lparr>data_m = [1, 2, 3, 7, 7, 7, 7, 7 :: int], size_m = 3 :: 64 word\<rparr>"
  let ?c = "\<lparr>data_m = [1, 2, 4, 0, 0, 0, 0, 0 :: int], size_m = 3 :: 64 word\<rparr>"
  have a: "has_capacity 5 ?a" "length_in_bounds 5 ?a"
    by (simp_all add: has_capacity_def length_in_bounds_def)
  have b: "has_capacity 8 ?b" "length_in_bounds 8 ?b"
    by (simp_all add: has_capacity_def length_in_bounds_def)
  have c: "has_capacity 8 ?c" "length_in_bounds 8 ?c"
    by (simp_all add: has_capacity_def length_in_bounds_def)
  have three: "i < 3 \<longleftrightarrow> i = 0 \<or> i = 1 \<or> i = 2" for i :: nat
    by auto
  have ab: "operator_eq ?a ?b = Inr True"
    using operator_eq_iff [OF a b] by (simp add: size_ssv_def three)
  have ac: "operator_eq ?a ?c = Inr False"
    using operator_eq_iff [OF a c] by (simp add: size_ssv_def three)
  show ?thesis
    using a b c ab ac by simp
qed

lemma word_pred_less:
  fixes s :: "'w::len word"
  assumes "0 < s"
  shows "s - 1 < s"
proof -
  from assms have ne: "s \<noteq> 0" by auto
  then have "unat (s - 1) = unat s - 1" by (rule unat_minus_one)
  moreover from ne have "0 < unat s" by (simp add: unat_gt_0)
  ultimately show ?thesis by (simp add: word_less_nat_alt)
qed

lemma default_in_bounds:
  "has_capacity Capacity (simple_stack_vector_default dflt Capacity)
   \<and> length_in_bounds Capacity (simple_stack_vector_default dflt Capacity)"
  by (simp add: has_capacity_def length_in_bounds_def simple_stack_vector_default_def)

lemma push_back_in_bounds:
  assumes "has_capacity Capacity v" and "length_in_bounds Capacity v"
  shows "has_capacity Capacity (snd (push_back Capacity x v))
         \<and> length_in_bounds Capacity (snd (push_back Capacity x v))"
proof (cases "size_m v = Capacity")
  case True
  then show ?thesis using assms by (simp add: push_back_def)
next
  case False
  with assms(2) have room: "size_m v < Capacity"
    by (simp add: length_in_bounds_def)
  then have "size_m v + 1 \<le> Capacity" by (rule inc_le)
  then show ?thesis
    using assms(1) by (simp add: push_back_room [OF assms(1) room] has_capacity_def
        length_in_bounds_def)
qed

lemma emplace_back_state:
  "snd (emplace_back Capacity ctor param v) = snd (push_back Capacity (ctor param) v)"
  by (simp add: emplace_back_def push_back_def Let_def split: sum.splits)

lemma emplace_back_in_bounds:
  assumes "has_capacity Capacity v" and "length_in_bounds Capacity v"
  shows "has_capacity Capacity (snd (emplace_back Capacity ctor param v))
         \<and> length_in_bounds Capacity (snd (emplace_back Capacity ctor param v))"
  using push_back_in_bounds [OF assms, of "ctor param"] by (simp add: emplace_back_state)

lemma pop_back_in_bounds:
  assumes "has_capacity Capacity v" and "length_in_bounds Capacity v" and "0 < size_m v"
  shows "has_capacity Capacity (pop_back v) \<and> length_in_bounds Capacity (pop_back v)"
proof -
  from assms(3) have "size_m v - 1 \<le> size_m v"
    using word_pred_less [of "size_m v"] by simp
  with assms(2) have "size_m v - 1 \<le> Capacity"
    by (simp add: length_in_bounds_def)
  then show ?thesis
    using assms(1) by (simp add: pop_back_def has_capacity_def length_in_bounds_def)
qed

lemma resize_in_bounds:
  assumes "has_capacity Capacity v" and "length_in_bounds Capacity v"
  shows "has_capacity Capacity (snd (resize of_data_type dflt Capacity n v))
         \<and> length_in_bounds Capacity (snd (resize of_data_type dflt Capacity n v))"
proof -
  consider "n \<le> size_m v" | "size_m v < n" "Capacity < n" | "size_m v < n" "n \<le> Capacity"
    by (meson not_le_imp_less)
  then show ?thesis
  proof cases
    case 1
    with assms(2) have "n \<le> Capacity" by (simp add: length_in_bounds_def)
    then show ?thesis
      using assms(1) by (simp add: resize_shrink [OF 1] has_capacity_def length_in_bounds_def)
  next
    case 2
    then show ?thesis
      using assms resize_too_large [OF 2, of of_data_type dflt] by auto
  next
    case 3
    from 3 have le: "unat (size_m v) \<le> unat n" by (simp add: word_less_nat_alt)
    from 3 assms(1) have inb: "unat n \<le> length (data_m v)"
      by (simp add: has_capacity_def word_le_nat_alt)
    show ?thesis
      using 3 le inb assms(1)
      by (simp add: resize_grow [OF assms(1) 3] has_capacity_def length_in_bounds_def)
  qed
qed

lemma apply_operation_in_bounds:
  assumes "has_capacity Capacity v" and "length_in_bounds Capacity v" and "precondition opn v"
  shows "has_capacity Capacity (apply_operation of_data_type dflt Capacity opn v)
         \<and> length_in_bounds Capacity (apply_operation of_data_type dflt Capacity opn v)"
proof (cases opn)
  case (Push_back x)
  then show ?thesis using push_back_in_bounds [OF assms(1,2)] by simp
next
  case (Emplace_back x)
  then show ?thesis using emplace_back_in_bounds [OF assms(1,2)] by simp
next
  case Pop_back
  then show ?thesis using pop_back_in_bounds [OF assms(1,2)] assms(3) by simp
next
  case Clear
  then show ?thesis
    using assms(1) by (simp add: clear_def has_capacity_def length_in_bounds_def)
next
  case (Resize n)
  then show ?thesis using resize_in_bounds [OF assms(1,2)] by simp
next
  case (Reserve n)
  then show ?thesis using assms(1,2) by (simp add: reserve_def)
next
  case Shrink_to_fit
  then show ?thesis using assms(1,2) by (simp add: shrink_to_fit_def)
qed

lemma run_in_bounds:
  "has_capacity Capacity v \<Longrightarrow> length_in_bounds Capacity v \<Longrightarrow>
   preconditions_hold of_data_type dflt Capacity opns v \<Longrightarrow>
   has_capacity Capacity (run of_data_type dflt Capacity opns v)
   \<and> length_in_bounds Capacity (run of_data_type dflt Capacity opns v)"
proof (induction opns arbitrary: v)
  case Nil
  then show ?case by simp
next
  case (Cons opn opns)
  from Cons.prems have pre: "precondition opn v"
    and rest: "preconditions_hold of_data_type dflt Capacity opns
                 (apply_operation of_data_type dflt Capacity opn v)"
    by simp_all
  from apply_operation_in_bounds [OF Cons.prems(1,2) pre, of of_data_type dflt]
  have "has_capacity Capacity (apply_operation of_data_type dflt Capacity opn v)"
    and "length_in_bounds Capacity (apply_operation of_data_type dflt Capacity opn v)"
    by simp_all
  then show ?case using Cons.IH rest by simp
qed

lemma resize_to_capacity:
  "size_m (snd (resize of_data_type dflt Capacity Capacity
                  (simple_stack_vector_default dflt Capacity))) = Capacity"
proof (cases "Capacity = 0")
  case True
  then show ?thesis by (simp add: resize_def simple_stack_vector_default_def)
next
  case False
  let ?d = "simple_stack_vector_default dflt Capacity"
  have hc: "has_capacity Capacity ?d" by (simp add: default_in_bounds)
  from False have lt: "size_m ?d < Capacity"
    by (simp add: simple_stack_vector_default_def word_neq_0_conv)
  show ?thesis by (simp add: resize_grow [OF hc lt])
qed

text \<open>
  Claim C8. \<open>0 \<le> length \<le> N\<close> is an invariant of the state machine: the
  default-constructed container satisfies it; every operation called with its
  precondition met (\<open>pop_back\<close> needs a length above 0, the others nothing) leads from
  a state that satisfies it to one that does, whether the call returns or throws; so it
  holds after every such run from the default container. Both ends are reached: the
  default container has length 0, and \<open>resize(N)\<close> on it gives length \<open>N\<close>. They are
  not terminal: in the full state of a capacity above 0 every operation can be called,
  and \<open>pop_back\<close> leaves it; in the empty state every operation but \<open>pop_back\<close> can be
  called, and \<open>push_back\<close> leaves it when the capacity is above 0.
\<close>

theorem length_in_bounds_invariant:
  fixes Capacity :: "'w::len word" and v :: "('a, 'w) simple_stack_vector"
  shows "length_in_bounds Capacity (simple_stack_vector_default dflt Capacity)
   \<and> (has_capacity Capacity v \<and> length_in_bounds Capacity v \<and> precondition opn v \<longrightarrow>
        length_in_bounds Capacity (apply_operation of_data_type dflt Capacity opn v))
   \<and> (preconditions_hold of_data_type dflt Capacity opns
          (simple_stack_vector_default dflt Capacity) \<longrightarrow>
        length_in_bounds Capacity
          (run of_data_type dflt Capacity opns (simple_stack_vector_default dflt Capacity)))
   \<and> size_m (simple_stack_vector_default dflt Capacity) = 0
   \<and> preconditions_hold of_data_type dflt Capacity [Resize Capacity]
        (simple_stack_vector_default dflt Capacity)
   \<and> size_m (run of_data_type dflt Capacity [Resize Capacity]
               (simple_stack_vector_default dflt Capacity)) = Capacity
   \<and> (size_m v = Capacity \<and> 0 < Capacity \<longrightarrow> precondition opn v)
   \<and> (size_m v = 0 \<and> opn \<noteq> Pop_back \<longrightarrow> precondition opn v)
   \<and> (has_capacity Capacity v \<and> size_m v = Capacity \<and> 0 < Capacity \<longrightarrow>
        size_m (apply_operation of_data_type dflt Capacity Pop_back v) < Capacity)
   \<and> (has_capacity Capacity v \<and> size_m v = 0 \<and> 0 < Capacity \<longrightarrow>
        0 < size_m (apply_operation of_data_type dflt Capacity (Push_back x) v))"
proof -
  let ?d = "simple_stack_vector_default dflt Capacity"
  have d: "has_capacity Capacity ?d" "length_in_bounds Capacity ?d"
    by (simp_all add: default_in_bounds)
  have step: "length_in_bounds Capacity (apply_operation of_data_type dflt Capacity opn v)"
    if "has_capacity Capacity v" "length_in_bounds Capacity v" "precondition opn v"
    using apply_operation_in_bounds [OF that] by simp
  have runs: "length_in_bounds Capacity (run of_data_type dflt Capacity opns ?d)"
    if "preconditions_hold of_data_type dflt Capacity opns ?d"
    using run_in_bounds [OF d that] by simp
  have full: "size_m (run of_data_type dflt Capacity [Resize Capacity] ?d) = Capacity"
    by (simp add: resize_to_capacity)
  have avail_full: "precondition opn v" if "size_m v = Capacity" "0 < Capacity"
    using that by (cases opn) simp_all
  have avail_empty: "precondition opn v" if "opn \<noteq> Pop_back"
    using that by (cases opn) simp_all
  have down: "size_m (apply_operation of_data_type dflt Capacity Pop_back v) < Capacity"
    if "size_m v = Capacity" "0 < Capacity"
    using that word_pred_less [of Capacity] by (simp add: pop_back_def)
  have up: "0 < size_m (apply_operation of_data_type dflt Capacity (Push_back x) v)"
    if hc: "has_capacity Capacity v" and e: "size_m v = 0" and pos: "0 < Capacity"
  proof -
    from e pos have room: "size_m v < Capacity" by simp
    show ?thesis using e by (simp add: push_back_room [OF hc room])
  qed
  show ?thesis
    using d(2) step runs full avail_full avail_empty down up
    by (simp add: simple_stack_vector_default_def)
qed

theorem length_in_bounds_invariant_witness:
  "has_capacity (2 :: 64 word) \<lparr>data_m = [5, 6 :: int], size_m = 2\<rparr>
   \<and> length_in_bounds (2 :: 64 word) \<lparr>data_m = [5, 6 :: int], size_m = 2\<rparr>
   \<and> size_m \<lparr>data_m = [5, 6 :: int], size_m = 2 :: 64 word\<rparr> = 2
   \<and> precondition Pop_back \<lparr>data_m = [5, 6 :: int], size_m = 2 :: 64 word\<rparr>
   \<and> length_in_bounds (2 :: 64 word)
        (apply_operation (\<lambda>a. 0) 0 2 Pop_back \<lparr>data_m = [5, 6 :: int], size_m = 2\<rparr>)
   \<and> size_m (apply_operation (\<lambda>a. 0) 0 (2 :: 64 word) Pop_back
               \<lparr>data_m = [5, 6 :: int], size_m = 2\<rparr>) < 2
   \<and> has_capacity (2 :: 64 word) \<lparr>data_m = [5, 6 :: int], size_m = 0\<rparr>
   \<and> size_m \<lparr>data_m = [5, 6 :: int], size_m = 0 :: 64 word\<rparr> = 0
   \<and> Push_back 9 \<noteq> (Pop_back :: (int, 64 word) operation)
   \<and> precondition (Push_back 9) \<lparr>data_m = [5, 6 :: int], size_m = 0 :: 64 word\<rparr>
   \<and> 0 < size_m (apply_operation (\<lambda>a. 0) 0 (2 :: 64 word) (Push_back 9)
                   \<lparr>data_m = [5, 6 :: int], size_m = 0\<rparr>)
   \<and> preconditions_hold (\<lambda>a. 0) (0 :: int) (2 :: 64 word)
        [Push_back 1, Pop_back, Resize 2, Push_back 3, Clear, Reserve 9]
        (simple_stack_vector_default 0 2)
   \<and> length_in_bounds (2 :: 64 word)
        (run (\<lambda>a. 0) (0 :: int) 2
           [Push_back 1, Pop_back, Resize 2, Push_back 3, Clear, Reserve 9]
           (simple_stack_vector_default 0 2))"
proof -
  let ?full = "\<lparr>data_m = [5, 6 :: int], size_m = 2 :: 64 word\<rparr>"
  let ?empty = "\<lparr>data_m = [5, 6 :: int], size_m = 0 :: 64 word\<rparr>"
  let ?opns = "[Push_back 1, Pop_back, Resize 2, Push_back 3, Clear, Reserve 9]
                 :: (int, 64 word) operation list"
  have f: "has_capacity 2 ?full" "length_in_bounds 2 ?full" "precondition Pop_back ?full"
    by (simp_all add: has_capacity_def length_in_bounds_def)
  have e: "has_capacity 2 ?empty" "precondition (Push_back 9) ?empty"
    by (simp_all add: has_capacity_def)
  have p: "preconditions_hold (\<lambda>a. 0) (0 :: int) (2 :: 64 word) ?opns
             (simple_stack_vector_default 0 2)"
    by code_simp
  show ?thesis
    using f e p
      length_in_bounds_invariant [where Capacity = "2 :: 64 word" and v = ?full
        and opn = Pop_back and of_data_type = "\<lambda>a. 0" and dflt = 0 and opns = ?opns]
      length_in_bounds_invariant [where Capacity = "2 :: 64 word" and v = ?empty
        and opn = "Push_back 9" and of_data_type = "\<lambda>a. 0" and dflt = 0 and x = 9
        and opns = ?opns]
    by simp
qed

section \<open>Facts about \<open>int_np\<close>\<close>














end
